theory Spec2Isabelle
  imports Main "HOL-Library.Log_Nat"
begin

section \<open>JavaScript numbers\<close>

text \<open>
  The component computes with JavaScript Numbers: IEEE 754 binary64 values. A value is
  \<open>NaN\<close>, an infinity with its sign, or a finite value given by its sign (\<open>True\<close> is
  negative) and its magnitude, an exact rational; \<open>Fin True 0\<close> is the negative zero.
  Every arithmetic result is rounded to the nearest binary64 value, ties to even: 53
  significant bits, least exponent \<open>-1074\<close>, overflow to infinity from \<open>2 ^ 1024\<close> on.
\<close>

datatype number = NaN | Infinity bool | Fin bool rat

text \<open>\<open>floor_log2 x\<close> is the exponent of the leading bit of a positive rational.\<close>

definition floor_log2 :: "rat \<Rightarrow> int" where
  "floor_log2 x = (case quotient_of x of (a, b) \<Rightarrow>
     let k = bitlen a - bitlen b in if 2 powi k \<le> x then k else k - 1)"

definition round_half_even :: "rat \<Rightarrow> int" where
  "round_half_even y = (let f = \<lfloor>y\<rfloor>; d = y - of_int f in
     if d < 1 / 2 then f else if 1 / 2 < d then f + 1 else if even f then f else f + 1)"

text \<open>Rounding of a non-negative magnitude; \<open>None\<close> is the overflow to infinity.\<close>

definition round_mag :: "rat \<Rightarrow> rat option" where
  "round_mag x = (if x = 0 then Some 0 else
     let e = max (- 1074) (floor_log2 x - 52);
         y = of_int (round_half_even (x / 2 powi e)) * 2 powi e
     in if 2 ^ 1024 \<le> y then None else Some y)"

definition to_number :: "bool \<Rightarrow> rat \<Rightarrow> number" where
  "to_number neg x = (case round_mag x of None \<Rightarrow> Infinity neg | Some y \<Rightarrow> Fin neg y)"

text \<open>A decimal literal of the source text, such as \<open>1.03\<close>, denotes the rounded value.\<close>

definition num_lit :: "rat \<Rightarrow> number" where
  "num_lit x = to_number False x"

text \<open>The operator \<open>*\<close> on Numbers.\<close>

fun js_mul :: "number \<Rightarrow> number \<Rightarrow> number" where
  "js_mul NaN _ = NaN"
| "js_mul _ NaN = NaN"
| "js_mul (Infinity s) (Infinity t) = Infinity (s \<noteq> t)"
| "js_mul (Infinity s) (Fin t y) = (if y = 0 then NaN else Infinity (s \<noteq> t))"
| "js_mul (Fin s x) (Infinity t) = (if x = 0 then NaN else Infinity (s \<noteq> t))"
| "js_mul (Fin s x) (Fin t y) = to_number (s \<noteq> t) (x * y)"

text \<open>
  The relational operators: every comparison with \<open>NaN\<close> is false, and the two zeros
  compare equal.
\<close>

definition signed_value :: "bool \<Rightarrow> rat \<Rightarrow> rat" where
  "signed_value neg x = (if neg then - x else x)"

fun js_lt :: "number \<Rightarrow> number \<Rightarrow> bool" where
  "js_lt NaN _ = False"
| "js_lt _ NaN = False"
| "js_lt (Infinity s) (Infinity t) = (s \<and> \<not> t)"
| "js_lt (Infinity s) (Fin t y) = s"
| "js_lt (Fin s x) (Infinity t) = (\<not> t)"
| "js_lt (Fin s x) (Fin t y) = (signed_value s x < signed_value t y)"

definition js_gt :: "number \<Rightarrow> number \<Rightarrow> bool" where
  "js_gt a b = js_lt b a"

fun js_le :: "number \<Rightarrow> number \<Rightarrow> bool" where
  "js_le NaN _ = False"
| "js_le _ NaN = False"
| "js_le a b = (\<not> js_lt b a)"

subsection \<open>parseFloat\<close>

text \<open>
  \<open>parseFloat\<close> skips leading white space, reads the longest prefix that is a decimal
  literal (a sign, then \<open>Infinity\<close> or digits with an optional fraction and exponent)
  and rounds its value; with no such prefix the result is \<open>NaN\<close>. Strings are
  sequences of 8-bit code units here.
\<close>

definition is_ws :: "char \<Rightarrow> bool" where
  "is_ws c = (of_char c \<in> {9, 10, 11, 12, 13, 32, 160 :: nat})"

definition is_digit :: "char \<Rightarrow> bool" where
  "is_digit c = (48 \<le> (of_char c :: nat) \<and> (of_char c :: nat) \<le> 57)"

definition digits_value :: "string \<Rightarrow> int" where
  "digits_value ds = foldl (\<lambda>n c. 10 * n + (int (of_char c) - 48)) 0 ds"

definition exponent_part :: "string \<Rightarrow> int" where
  "exponent_part r = (case r of
       [] \<Rightarrow> 0
     | c # r' \<Rightarrow>
         if c = CHR ''e'' \<or> c = CHR ''E'' then
           (case r' of
              [] \<Rightarrow> 0
            | d # r'' \<Rightarrow>
                if d = CHR ''-'' then - digits_value (takeWhile is_digit r'')
                else if d = CHR ''+'' then digits_value (takeWhile is_digit r'')
                else digits_value (takeWhile is_digit r'))
         else 0)"

definition parseFloat :: "string \<Rightarrow> number" where
  "parseFloat s =
     (let t = dropWhile is_ws s;
          neg = (t \<noteq> [] \<and> hd t = CHR ''-'');
          u = (if t \<noteq> [] \<and> (hd t = CHR ''-'' \<or> hd t = CHR ''+'') then tl t else t)
      in if take 8 u = ''Infinity'' then Infinity neg
         else
           let ip = takeWhile is_digit u;
               r1 = dropWhile is_digit u;
               dot = (r1 \<noteq> [] \<and> hd r1 = CHR ''.'');
               fp = (if dot then takeWhile is_digit (tl r1) else []);
               r2 = (if dot then dropWhile is_digit (tl r1) else r1)
           in if ip = [] \<and> fp = [] then NaN
              else to_number neg
                     (of_int (digits_value (ip @ fp)) * 10 powi (exponent_part r2 - int (length fp))))"

section \<open>The GoodsManagement component\<close>

subsection \<open>State\<close>

text \<open>The form: seven text fields, each a string.\<close>

record formData =
  goodsId :: string
  goodsName :: string
  cost :: string
  price :: string
  date :: string
  supplierId :: string
  supplierName :: string

text \<open>
  The prediction block: two scenarios, each an object whose keys are the day offsets.
\<close>

record predictions =
  up :: "nat \<rightharpoonup> number"
  down :: "nat \<rightharpoonup> number"

record supplierPerformance =
  onTimeDelivery :: string
  qualityScore :: string
  riskLevel :: string

text \<open>
  A stored record: the seven form fields (the spread of \<open>formData\<close>), then \<open>id\<close>
  (here \<open>item_id\<close>), \<open>currentPrice\<close>, \<open>predictions\<close> and \<open>supplierPerformance\<close>.
\<close>

record goodsItem = formData +
  item_id :: nat
  currentPrice :: number
  predictions :: predictions
  supplierPerformance :: supplierPerformance

text \<open>Values that the rate state can hold: what a JSON response carries, or nothing.\<close>

datatype jsval =
    Undefined
  | Null
  | Bool bool
  | Num number
  | Str string
  | Arr "jsval list"
  | Obj "(string \<times> jsval) list"

text \<open>
  The hooks of the component. \<open>console\<close> collects the messages of \<open>console.error\<close>,
  which the page never shows.
\<close>

record state =
  goods :: "goodsItem list"
  loading :: bool
  error :: string
  exchangeRate :: jsval
  formData :: formData
  console :: "string list"

definition emptyForm :: formData where
  "emptyForm = \<lparr>goodsId = '''', goodsName = '''', cost = '''', price = '''', date = '''',
     supplierId = '''', supplierName = ''''\<rparr>"

definition initialState :: state where
  "initialState = \<lparr>goods = [], loading = False, error = '''', exchangeRate = Null,
     formData = emptyForm, console = []\<rparr>"

subsection \<open>fetchExchangeRate\<close>

text \<open>
  The request is made with the HTTP client's defaults. Without a response the awaited
  promise is rejected, and so it is for a status outside \<open>200..299\<close>. Otherwise the
  promise resolves, and the data of the response is the parsed body; a body that cannot
  be parsed raises nothing in the client, which hands over the text as a string.
\<close>

datatype body = Json jsval | Unparseable string

datatype http_result = NoResponse | Response nat body

datatype fetch_failure = NetworkError | BadStatus nat

definition axios_get :: "http_result \<Rightarrow> fetch_failure + jsval" where
  "axios_get r = (case r of
       NoResponse \<Rightarrow> Inl NetworkError
     | Response status b \<Rightarrow>
         if 200 \<le> status \<and> status < 300 then
           Inr (case b of Json v \<Rightarrow> v | Unparseable raw \<Rightarrow> Str raw)
         else Inl (BadStatus status))"

text \<open>
  Reading a property of \<open>undefined\<close> or \<open>null\<close> throws a TypeError; of any other value
  without that property it gives \<open>undefined\<close>.
\<close>

datatype js_exception = RequestFailed fetch_failure | TypeError

fun get_prop :: "jsval \<Rightarrow> string \<Rightarrow> js_exception + jsval" where
  "get_prop Undefined k = Inl TypeError"
| "get_prop Null k = Inl TypeError"
| "get_prop (Obj kvs) k = Inr (case map_of kvs k of None \<Rightarrow> Undefined | Some v \<Rightarrow> v)"
| "get_prop v k = Inr Undefined"

definition fallbackRates :: jsval where
  "fallbackRates = Obj [(''USD'', Num (num_lit 1)), (''EUR'', Num (num_lit (85 / 100))),
     (''GBP'', Num (num_lit (73 / 100))), (''NGN'', Num (num_lit 460))]"

text \<open>The body of the \<open>try\<close> block: the rates to store, or the exception thrown.\<close>

definition fetch_try :: "fetch_failure + jsval \<Rightarrow> js_exception + jsval" where
  "fetch_try response = (case response of
       Inl f \<Rightarrow> Inl (RequestFailed f)
     | Inr data \<Rightarrow> get_prop data ''rates'')"

definition fetchExchangeRate :: "fetch_failure + jsval \<Rightarrow> state \<Rightarrow> state" where
  "fetchExchangeRate response s = (case fetch_try response of
       Inr rates \<Rightarrow> s\<lparr>exchangeRate := rates\<rparr>
     | Inl ex \<Rightarrow> s\<lparr>console := console s @ [''Error fetching exchange rate:''],
                    exchangeRate := fallbackRates\<rparr>)"

subsection \<open>handleInputChange\<close>

text \<open>
  The \<open>name\<close> of a change event is the name attribute of one of the seven text fields.
\<close>

datatype field = GoodsId | GoodsName | Cost | Price | Date | SupplierId | SupplierName

fun set_field :: "field \<Rightarrow> string \<Rightarrow> formData \<Rightarrow> formData" where
  "set_field GoodsId v fd = fd\<lparr>goodsId := v\<rparr>"
| "set_field GoodsName v fd = fd\<lparr>goodsName := v\<rparr>"
| "set_field Cost v fd = fd\<lparr>cost := v\<rparr>"
| "set_field Price v fd = fd\<lparr>price := v\<rparr>"
| "set_field Date v fd = fd\<lparr>date := v\<rparr>"
| "set_field SupplierId v fd = fd\<lparr>supplierId := v\<rparr>"
| "set_field SupplierName v fd = fd\<lparr>supplierName := v\<rparr>"

definition handleInputChange :: "field \<Rightarrow> string \<Rightarrow> state \<Rightarrow> state" where
  "handleInputChange name v s = s\<lparr>formData := set_field name v (formData s)\<rparr>"

subsection \<open>handleSubmit\<close>

text \<open>
  \<open>Date.now()\<close> and the three draws of \<open>Math.random()\<close> are parameters: \<open>now\<close>, and
  \<open>r1\<close>, \<open>r2\<close>, \<open>r3\<close> in the order of the calls.
\<close>

definition newGoods :: "nat \<Rightarrow> number \<Rightarrow> number \<Rightarrow> number \<Rightarrow> formData \<Rightarrow> goodsItem" where
  "newGoods now r1 r2 r3 fd =
     \<lparr>goodsId = goodsId fd, goodsName = goodsName fd, cost = cost fd, price = price fd,
      date = date fd, supplierId = supplierId fd, supplierName = supplierName fd,
      item_id = now,
      currentPrice = parseFloat (price fd),
      predictions =
        \<lparr>up = [30 \<mapsto> js_mul (parseFloat (price fd)) (num_lit (103 / 100)),
               50 \<mapsto> js_mul (parseFloat (price fd)) (num_lit (103 / 100)),
               60 \<mapsto> js_mul (parseFloat (price fd)) (num_lit (103 / 100))],
         down = [30 \<mapsto> js_mul (parseFloat (price fd)) (num_lit (97 / 100)),
                 50 \<mapsto> js_mul (parseFloat (price fd)) (num_lit (97 / 100)),
                 60 \<mapsto> js_mul (parseFloat (price fd)) (num_lit (97 / 100))]\<rparr>,
      supplierPerformance =
        \<lparr>onTimeDelivery = (if js_gt r1 (num_lit (3 / 10)) then ''Good'' else ''Poor''),
         qualityScore = (if js_gt r2 (num_lit (2 / 10)) then ''High'' else ''Low''),
         riskLevel = (if js_gt r3 (num_lit (4 / 10)) then ''Low'' else ''High'')\<rparr>\<rparr>"

text \<open>The validation: \<open>!v\<close> on a string holds exactly for the empty string.\<close>

definition someFieldEmpty :: "formData \<Rightarrow> bool" where
  "someFieldEmpty fd = (goodsId fd = [] \<or> goodsName fd = [] \<or> cost fd = [] \<or> price fd = [] \<or>
     date fd = [] \<or> supplierId fd = [] \<or> supplierName fd = [])"

definition handleSubmit :: "nat \<Rightarrow> number \<Rightarrow> number \<Rightarrow> number \<Rightarrow> state \<Rightarrow> state" where
  "handleSubmit now r1 r2 r3 s =
     (let s1 = s\<lparr>loading := True\<rparr>;
          s2 = s1\<lparr>error := ''''\<rparr>
      in if someFieldEmpty (formData s) then
           s2\<lparr>error := ''Please fill in all fields'', loading := False\<rparr>
         else
           s2\<lparr>goods := goods s2 @ [newGoods now r1 r2 r3 (formData s)],
              formData := emptyForm,
              loading := False\<rparr>)"

definition getSupplierRiskColor :: "string \<Rightarrow> string" where
  "getSupplierRiskColor risk = (if risk = ''High'' then ''error'' else ''success'')"

subsection \<open>The handlers as events\<close>

text \<open>
  Every change of the state is one of the three handlers; a session is a sequence of
  their calls from the initial state.
\<close>

datatype event =
    FetchExchangeRate "fetch_failure + jsval"
  | InputChange field string
  | Submit nat number number number

fun dispatch :: "event \<Rightarrow> state \<Rightarrow> state" where
  "dispatch (FetchExchangeRate response) s = fetchExchangeRate response s"
| "dispatch (InputChange name v) s = handleInputChange name v s"
| "dispatch (Submit now r1 r2 r3) s = handleSubmit now r1 r2 r3 s"

fun run :: "event list \<Rightarrow> state \<Rightarrow> state" where
  "run [] s = s"
| "run (ev # evs) s = run evs (dispatch ev s)"

subsection \<open>A sample submission\<close>

text \<open>
  The submission of the specification's example (section 8), with the price left open,
  and the state in which it has been typed into the form of a fresh component.
\<close>

definition exampleForm :: "string \<Rightarrow> formData" where
  "exampleForm p = \<lparr>goodsId = ''G1'', goodsName = ''Widget'', cost = ''5'', price = p,
     date = ''2024-01-01'', supplierId = ''S1'', supplierName = ''Acme''\<rparr>"

definition filledState :: "string \<Rightarrow> state" where
  "filledState p = initialState\<lparr>formData := exampleForm p\<rparr>"

section \<open>Rounding\<close>

lemma pow2_pos: "0 < (2::rat) powi k"
  by simp

lemma pow2_strict_mono: "i < j \<Longrightarrow> (2::rat) powi i < 2 powi j"
  by (rule power_int_strict_increasing) simp_all

lemma pow2_mono: "i \<le> j \<Longrightarrow> (2::rat) powi i \<le> 2 powi j"
  by (rule power_int_increasing) simp_all

lemma pow2_less_cancel: "(2::rat) powi i < 2 powi j \<Longrightarrow> i < j"
  using pow2_mono [of j i] by (cases "i < j") auto

lemma pow2_double: "(2::rat) powi (k + 1) = 2 * 2 powi k"
  by (simp add: power_int_add)

lemma quotient_of_value:
  assumes "quotient_of x = (a, b)"
  shows "x = of_int a / of_int b" and "0 < b"
  using assms quotient_of_denom_pos [OF assms] quotient_of_div [of x] 
  by (auto simp: prod_eq_iff)

lemma bitlen_pow2_bounds:
  assumes "0 < a"
  shows "(2::rat) powi (bitlen a - 1) \<le> of_int a" and "of_int a < (2::rat) powi bitlen a"
proof -
  from assms have pos: "1 \<le> bitlen a"
    by (simp add: bitlen_alt_def)
  from bitlen_bounds [OF assms]
  have lo: "2 ^ nat (bitlen a - 1) \<le> a" and hi: "a < 2 ^ nat (bitlen a)"
    by simp_all
  from lo have "(of_int (2 ^ nat (bitlen a - 1)) :: rat) \<le> of_int a"
    by (simp only: of_int_le_iff)
  with pos show "(2::rat) powi (bitlen a - 1) \<le> of_int a"
    by (simp add: power_int_nonneg_exp)
  from hi have "(of_int a :: rat) < of_int (2 ^ nat (bitlen a))"
    by (simp only: of_int_less_iff)
  with pos show "of_int a < (2::rat) powi bitlen a"
    by (simp add: power_int_nonneg_exp)
qed

lemma floor_log2_bounds:
  assumes "0 < x"
  shows "2 powi floor_log2 x \<le> x" and "x < 2 powi (floor_log2 x + 1)"
proof -
  obtain a b where q: "quotient_of x = (a, b)"
    by (cases "quotient_of x")
  from quotient_of_value [OF q] have x: "x = of_int a / of_int b" and b: "0 < b"
    by simp_all
  from assms x b have a: "0 < a"
    by (simp add: zero_less_divide_iff)
  define k where "k = bitlen a - bitlen b"
  have b_pos: "(0::rat) < of_int b"
    using b by simp
  have "2 powi (k - 1) * (of_int b :: rat) \<le> 2 powi (k - 1) * 2 powi bitlen b"
    using bitlen_pow2_bounds(2) [OF b] by (simp add: less_imp_le)
  also have "\<dots> = 2 powi (bitlen a - 1)"
    by (simp add: k_def power_int_add [symmetric])
  also have "\<dots> \<le> of_int a"
    using bitlen_pow2_bounds(1) [OF a] .
  finally have lo: "2 powi (k - 1) \<le> x"
    using b_pos by (simp add: x pos_le_divide_eq)
  have "(of_int a :: rat) < 2 powi bitlen a"
    using bitlen_pow2_bounds(2) [OF a] .
  also have "\<dots> = 2 powi (k + 1) * 2 powi (bitlen b - 1)"
    by (simp add: k_def power_int_add [symmetric])
  also have "\<dots> \<le> 2 powi (k + 1) * of_int b"
    using bitlen_pow2_bounds(1) [OF b] by simp
  finally have hi: "x < 2 powi (k + 1)"
    using b_pos by (simp add: x pos_divide_less_eq)
  have fl: "floor_log2 x = (if 2 powi k \<le> x then k else k - 1)"
    by (simp add: floor_log2_def q k_def Let_def)
  show "2 powi floor_log2 x \<le> x"
    using lo by (simp add: fl)
  show "x < 2 powi (floor_log2 x + 1)"
    using hi by (simp add: fl not_le)
qed

lemma floor_log2_unique:
  assumes "2 powi l \<le> x" and "x < 2 powi (l + 1)"
  shows "floor_log2 x = l"
proof -
  have pos: "0 < x"
    using assms(1) pow2_pos [of l] by linarith
  from floor_log2_bounds [OF pos] assms
  have "(2::rat) powi floor_log2 x < 2 powi (l + 1)" and "(2::rat) powi l < 2 powi (floor_log2 x + 1)"
    by linarith+
  then have "floor_log2 x < l + 1" and "l < floor_log2 x + 1"
    by (auto dest: pow2_less_cancel)
  then show ?thesis by simp
qed

lemma round_half_even_bounds:
  "of_int (round_half_even y) \<le> y + 1 / 2" "y - 1 / 2 \<le> of_int (round_half_even y)"
  unfolding round_half_even_def Let_def
  by (auto simp: not_less) linarith+

lemma round_half_even_unique:
  assumes "of_int m - 1 / 2 < y" and "y < of_int m + 1 / 2"
  shows "round_half_even y = m"
proof -
  have "\<lfloor>y\<rfloor> = m \<or> \<lfloor>y\<rfloor> = m - 1"
    using assms by linarith
  then show ?thesis
    using assms unfolding round_half_even_def Let_def
    by (auto simp: not_less)
qed

lemma round_mag_unfold:
  assumes "x \<noteq> 0"
  shows "round_mag x =
    (if (2::rat) ^ 1024 \<le> of_int (round_half_even (x / 2 powi (max (- 1074) (floor_log2 x - 52)))) *
          2 powi (max (- 1074) (floor_log2 x - 52))
     then None
     else Some (of_int (round_half_even (x / 2 powi (max (- 1074) (floor_log2 x - 52)))) *
          2 powi (max (- 1074) (floor_log2 x - 52))))"
  using assms by (simp only: round_mag_def Let_def if_False)

lemma round_mag_exact:
  fixes x :: rat
  assumes "2 powi l \<le> x" and "x < 2 powi (l + 1)" and "e = max (- 1074) (l - 52)"
    and "of_int m - 1 / 2 < x / 2 powi e" and "x / 2 powi e < of_int m + 1 / 2"
    and "of_int m * 2 powi e < (2::rat) ^ 1024"
  shows "round_mag x = Some (of_int m * 2 powi e)"
proof -
  have pos: "0 < x"
    using assms(1) pow2_pos [of l] by linarith
  have fl: "floor_log2 x = l"
    using assms(1,2) by (rule floor_log2_unique)
  have rd: "round_half_even (x / 2 powi e) = m"
    using assms(4,5) by (rule round_half_even_unique)
  have nz: "x \<noteq> 0"
    using pos by simp
  have "round_mag x =
      (if (2::rat) ^ 1024 \<le> of_int m * 2 powi e then None else Some (of_int m * 2 powi e))"
    by (simp only: round_mag_unfold [OF nz] fl assms(3) [symmetric] rd)
  moreover have "\<not> (2::rat) ^ 1024 \<le> of_int m * 2 powi e"
    using assms(6) by (simp only: not_le)
  ultimately show ?thesis
    by (simp only: if_False)
qed

lemma ulp_bound:
  assumes "0 < x"
  shows "2 powi (max (- 1074) (floor_log2 x - 52)) \<le> max (2 powi (- 1074)) (x / 2 ^ 52)"
proof -
  have "(2::rat) powi (floor_log2 x - 52) = 2 powi floor_log2 x / 2 ^ 52"
    by (simp add: power_int_diff)
  also have "\<dots> \<le> x / 2 ^ 52"
    using floor_log2_bounds(1) [OF assms] by (simp add: divide_right_mono)
  finally show ?thesis
    by (simp add: max_def)
qed

lemma round_mag_lower:
  assumes "0 < x" and "round_mag x = Some y"
  shows "x - max (2 powi (- 1074)) (x / 2 ^ 52) / 2 \<le> y"
proof -
  define e where "e = max (- 1074) (floor_log2 x - 52)"
  define u where "u = (2::rat) powi e"
  define M where "M = max (2 powi (- 1074)) (x / 2 ^ 52)"
  define r where "r = (of_int (round_half_even (x / u)) :: rat)"
  have "x \<noteq> 0"
    using assms(1) by simp
  then have "round_mag x = (if (2::rat) ^ 1024 \<le> r * u then None else Some (r * u))"
    unfolding r_def u_def e_def by (rule round_mag_unfold)
  with assms(2) have y: "y = r * u"
    by (simp split: if_splits)
  have u_pos: "0 < u"
    by (simp add: u_def)
  have "x / u - 1 / 2 \<le> r"
    unfolding r_def by (rule round_half_even_bounds)
  then have "(x / u - 1 / 2) * u \<le> r * u"
    using u_pos by (simp only: mult_le_cancel_right_pos)
  then have "x - u / 2 \<le> y"
    using u_pos by (simp add: y algebra_simps)
  moreover have "u \<le> M"
    unfolding u_def e_def M_def using assms(1) by (rule ulp_bound)
  ultimately have "x - M / 2 \<le> y"
    by linarith
  then show ?thesis
    by (simp only: M_def)
qed

lemma round_mag_upper:
  fixes b :: rat
  assumes "0 < x" and "x + max (2 powi (- 1074)) (x / 2 ^ 52) / 2 < b" and "b \<le> 2 ^ 1024"
  shows "\<exists>y. round_mag x = Some y \<and> y < b"
proof -
  define e where "e = max (- 1074) (floor_log2 x - 52)"
  define u where "u = (2::rat) powi e"
  define M where "M = max (2 powi (- 1074)) (x / 2 ^ 52)"
  define r where "r = (of_int (round_half_even (x / u)) :: rat)"
  define B where "B = (2::rat) ^ 1024"
  have "x \<noteq> 0"
    using assms(1) by simp
  then have rm: "round_mag x = (if B \<le> r * u then None else Some (r * u))"
    unfolding B_def r_def u_def e_def by (rule round_mag_unfold)
  have u_pos: "0 < u"
    by (simp add: u_def)
  have "r \<le> x / u + 1 / 2"
    unfolding r_def by (rule round_half_even_bounds)
  then have "r * u \<le> (x / u + 1 / 2) * u"
    using u_pos by (simp only: mult_le_cancel_right_pos)
  then have "r * u \<le> x + u / 2"
    using u_pos by (simp add: algebra_simps)
  moreover have "u \<le> M"
    unfolding u_def e_def M_def using assms(1) by (rule ulp_bound)
  moreover have "x + M / 2 < b"
    using assms(2) by (simp only: M_def)
  ultimately have lt: "r * u < b"
    by linarith
  moreover have "b \<le> B"
    using assms(3) by (simp only: B_def)
  ultimately have "\<not> B \<le> r * u"
    by linarith
  with rm have "round_mag x = Some (r * u)"
    by (simp only: if_False)
  with lt show ?thesis by blast
qed

lemma round_mag_range:
  assumes "round_mag x = Some y" and "0 \<le> x"
  shows "0 \<le> y" and "y < 2 ^ 1024"
proof -
  define e where "e = max (- 1074) (floor_log2 x - 52)"
  define u where "u = (2::rat) powi e"
  define r where "r = round_half_even (x / u)"
  define B where "B = (2::rat) ^ 1024"
  have B_pos: "0 < B"
    by (simp add: B_def)
  have u_pos: "0 < u"
    by (simp add: u_def)
  have "0 \<le> y \<and> y < B"
  proof (cases "x = 0")
    case True
    with assms(1) have "y = 0"
      by (simp add: round_mag_def)
    with B_pos show ?thesis by simp
  next
    case False
    from False
    have rm: "round_mag x = (if B \<le> of_int r * u then None else Some (of_int r * u))"
      unfolding B_def r_def u_def e_def by (rule round_mag_unfold)
    with assms(1) have y: "y = of_int r * u" and lt: "\<not> B \<le> of_int r * u"
      by (simp_all split: if_splits)
    have "0 \<le> x / u"
      using assms(2) u_pos by simp
    moreover have "x / u - 1 / 2 \<le> of_int r"
      unfolding r_def by (rule round_half_even_bounds)
    ultimately have "(- 1 :: rat) < of_int r"
      by linarith
    then have "0 \<le> r"
      by linarith
    then have "0 \<le> y"
      using u_pos by (simp add: y)
    with lt y show ?thesis by simp
  qed
  then show "0 \<le> y" and "y < 2 ^ 1024"
    by (simp_all only: B_def)
qed

lemma floor_log2_less:
  assumes "0 < x" and "x < 2 powi k"
  shows "floor_log2 x < k"
proof -
  have "(2::rat) powi floor_log2 x < 2 powi k"
    using floor_log2_bounds(1) [OF assms(1)] assms(2) by linarith
  then show ?thesis
    by (rule pow2_less_cancel)
qed

lemma round_mag_subnormal:
  assumes "0 < x" and "x < 2 powi (- 1022)"
    and "of_int m - 1 / 2 < x * 2 ^ 1074" and "x * 2 ^ 1074 < of_int m + 1 / 2"
    and "m < 2 ^ 53"
  shows "round_mag x = Some (of_int m / 2 ^ 1074)"
proof -
  have "floor_log2 x < - 1022"
    using assms(1,2) by (rule floor_log2_less)
  then have e: "max (- 1074) (floor_log2 x - 52) = - 1074"
    by simp
  have q: "x / 2 powi (- 1074) = x * 2 ^ 1074"
    by (simp add: power_int_minus_divide)
  have rd: "round_half_even (x * 2 ^ 1074) = m"
    using assms(3,4) by (rule round_half_even_unique)
  have nz: "x \<noteq> 0"
    using assms(1) by simp
  have "(of_int m :: rat) < of_int (2 ^ 53)"
    using assms(5) by (simp only: of_int_less_iff)
  then have "(of_int m :: rat) < 2 ^ 53"
    by simp
  then have "(of_int m :: rat) / 2 ^ 1074 < 2 ^ 53 / 2 ^ 1074"
    by (simp add: divide_strict_right_mono)
  also have "\<dots> \<le> (2::rat) ^ 1024"
    by simp
  finally have "\<not> (2::rat) ^ 1024 \<le> of_int m * 2 powi (- 1074)"
    by (simp add: power_int_minus_divide)
  then have "round_mag x = Some (of_int m * 2 powi (- 1074))"
    by (simp only: round_mag_unfold [OF nz] e q rd if_False)
  then show ?thesis
    by (simp add: power_int_minus_divide)
qed

lemma c103_value: "num_lit (103 / 100) = Fin False (4638707616191611 / 2 ^ 52)"
proof -
  have "round_mag (103 / 100) = Some (of_int 4638707616191611 * 2 powi (- 52))"
    by (rule round_mag_exact [where l = 0]) (simp_all add: power_int_minus_divide)
  then show ?thesis
    by (simp add: num_lit_def to_number_def power_int_minus_divide)
qed

lemma c97_value: "num_lit (97 / 100) = Fin False (4368491638549381 / 2 ^ 52)"
proof -
  have "round_mag (97 / 100) = Some (of_int 8736983277098762 * 2 powi (- 53))"
    by (rule round_mag_exact [where l = "- 1"]) (simp_all add: power_int_minus_divide)
  then show ?thesis
    by (simp add: num_lit_def to_number_def power_int_minus_divide)
qed

lemma up_exceeds:
  fixes p :: rat
  assumes "17 * d \<le> p" and "0 < d" and "M = max d (p * c / 2 ^ 52)"
    and "p * c - M / 2 \<le> y" and "c = 4638707616191611 / 2 ^ 52"
  shows "p < y"
proof -
  have p: "0 < p"
    using assms(1,2) by linarith
  show ?thesis
  proof (cases "d \<le> p * c / 2 ^ 52")
    case True
    then have "M = p * c / 2 ^ 52"
      by (simp add: assms(3) max_def)
    with assms(4) have "p * c - p * c / 2 ^ 53 \<le> y"
      by simp
    then show ?thesis
      using p by (simp add: assms(5))
  next
    case False
    then have "M = d"
      by (simp add: assms(3) max_def)
    with assms(4) have "p * c - d / 2 \<le> y"
      by simp
    then show ?thesis
      using assms(1,2) by (simp add: assms(5))
  qed
qed

lemma down_below:
  fixes p :: rat
  assumes "17 * d \<le> p" and "0 < d" and "M = max d (p * c / 2 ^ 52)"
    and "c = 4368491638549381 / 2 ^ 52"
  shows "p * c + M / 2 < p"
proof -
  have p: "0 < p"
    using assms(1,2) by linarith
  show ?thesis
  proof (cases "d \<le> p * c / 2 ^ 52")
    case True
    then have "M = p * c / 2 ^ 52"
      by (simp add: assms(3) max_def)
    then show ?thesis
      using p by (simp add: assms(4))
  next
    case False
    then have "M = d"
      by (simp add: assms(3) max_def)
    then show ?thesis
      using assms(1,2) by (simp add: assms(4))
  qed
qed

lemma js_mul_up:
  assumes "17 / 2 ^ 1074 \<le> p"
  shows "js_gt (js_mul (Fin False p) (num_lit (103 / 100))) (Fin False p)"
proof -
  define c :: rat where "c = 4638707616191611 / 2 ^ 52"
  define d :: rat where "d = 2 powi (- 1074)"
  have d: "0 < d" "17 * d \<le> p"
    using assms by (simp_all add: d_def power_int_minus_divide)
  then have x: "0 < p * c"
    by (simp add: c_def)
  have mul: "js_mul (Fin False p) (num_lit (103 / 100)) = to_number False (p * c)"
    by (simp add: c103_value c_def)
  show ?thesis
  proof (cases "round_mag (p * c)")
    case None
    then show ?thesis
      by (simp add: mul to_number_def js_gt_def)
  next
    case (Some y)
    from round_mag_lower [OF x Some]
    have "p * c - max d (p * c / 2 ^ 52) / 2 \<le> y"
      by (simp only: d_def)
    with d(2,1) refl have "p < y"
      by (rule up_exceeds) (rule c_def)
    with Some show ?thesis
      by (simp add: mul to_number_def js_gt_def signed_value_def)
  qed
qed

lemma js_mul_down:
  assumes "17 / 2 ^ 1074 \<le> p" and "p < 2 ^ 1024"
  shows "js_gt (Fin False p) (js_mul (Fin False p) (num_lit (97 / 100)))"
proof -
  define c :: rat where "c = 4368491638549381 / 2 ^ 52"
  define d :: rat where "d = 2 powi (- 1074)"
  have d: "0 < d" "17 * d \<le> p"
    using assms by (simp_all add: d_def power_int_minus_divide)
  then have x: "0 < p * c"
    by (simp add: c_def)
  have mul: "js_mul (Fin False p) (num_lit (97 / 100)) = to_number False (p * c)"
    by (simp add: c97_value c_def)
  have "p * c + max d (p * c / 2 ^ 52) / 2 < p"
    using d(2,1) refl c_def by (rule down_below)
  then have "p * c + max (2 powi (- 1074)) (p * c / 2 ^ 52) / 2 < p"
    by (simp only: d_def)
  moreover have "p \<le> 2 ^ 1024"
    using assms(2) by simp
  ultimately obtain y where "round_mag (p * c) = Some y" and "y < p"
    using round_mag_upper [OF x] by blast
  then show ?thesis
    by (simp add: mul to_number_def js_gt_def signed_value_def)
qed

lemma to_number_range:
  assumes "to_number neg x = Fin s y" and "0 \<le> x"
  shows "0 \<le> y" and "y < 2 ^ 1024"
proof -
  from assms(1) have "round_mag x = Some y"
    by (simp add: to_number_def split: option.splits)
  from round_mag_range [OF this assms(2)] show "0 \<le> y" and "y < 2 ^ 1024" .
qed

lemma digits_value_nonneg:
  "0 \<le> n \<Longrightarrow> 0 \<le> foldl (\<lambda>n c. 10 * n + (int (of_char c) - 48)) n (filter is_digit ds)"
  by (induction ds arbitrary: n) (auto simp: is_digit_def)

lemma takeWhile_digits: "filter is_digit (takeWhile is_digit ds) = takeWhile is_digit ds"
  by (induction ds) auto

lemma parseFloat_range:
  assumes "parseFloat s = Fin neg p"
  shows "0 \<le> p" and "p < 2 ^ 1024"
proof -
  define t where "t = dropWhile is_ws s"
  define u where "u = (if t \<noteq> [] \<and> (hd t = CHR ''-'' \<or> hd t = CHR ''+'') then tl t else t)"
  define r1 where "r1 = dropWhile is_digit u"
  define ip where "ip = takeWhile is_digit u"
  define dot where "dot = (r1 \<noteq> [] \<and> hd r1 = CHR ''.'')"
  define fp where "fp = (if dot then takeWhile is_digit (tl r1) else [])"
  define r2 where "r2 = (if dot then dropWhile is_digit (tl r1) else r1)"
  define x :: rat where
    "x = of_int (digits_value (ip @ fp)) * 10 powi (exponent_part r2 - int (length fp))"
  have "filter is_digit (ip @ fp) = ip @ fp"
    by (simp add: ip_def fp_def takeWhile_digits)
  then have "0 \<le> digits_value (ip @ fp)"
    using digits_value_nonneg [of 0 "ip @ fp"] by (simp only: digits_value_def)
  then have x: "0 \<le> x"
    by (simp add: x_def)
  from assms have "\<exists>n. to_number n x = Fin neg p"
    unfolding parseFloat_def Let_def t_def [symmetric]
    unfolding u_def [symmetric]
    unfolding r1_def [symmetric] ip_def [symmetric]
    unfolding dot_def [symmetric]
    unfolding fp_def [symmetric] r2_def [symmetric]
    unfolding x_def [symmetric]
    by (auto split: if_splits)
  then obtain n where "to_number n x = Fin neg p" ..
  from to_number_range [OF this x] show "0 \<le> p" and "p < 2 ^ 1024" .
qed

subsection \<open>Values of the literals and of sample inputs\<close>

lemma parse_10: "parseFloat ''10'' = Fin False 10"
proof -
  have "round_mag 10 = Some (of_int 5629499534213120 * 2 powi (- 49))"
    by (rule round_mag_exact [where l = 3]) (simp_all add: power_int_minus_divide)
  then have "to_number False 10 = Fin False 10"
    by (simp add: to_number_def power_int_minus_divide)
  then show ?thesis
    by (simp add: parseFloat_def is_ws_def is_digit_def digits_value_def exponent_part_def)
qed

lemma parse_neg5: "parseFloat ''-5'' = Fin True 5"
proof -
  have "round_mag 5 = Some (of_int 5629499534213120 * 2 powi (- 50))"
    by (rule round_mag_exact [where l = 2]) (simp_all add: power_int_minus_divide)
  then have "to_number True 5 = Fin True 5"
    by (simp add: to_number_def power_int_minus_divide)
  then show ?thesis
    by (simp add: parseFloat_def is_ws_def is_digit_def digits_value_def exponent_part_def)
qed

lemma round_tiny: "round_mag (5 / 10 ^ 324) = Some (1 / 2 ^ 1074)"
proof -
  have "round_mag (5 / 10 ^ 324) = Some (of_int 1 * 2 powi (- 1074))"
    by (rule round_mag_exact [where l = "- 1074"]) (simp_all add: power_int_minus_divide)
  then show ?thesis
    by (simp add: power_int_minus_divide)
qed

lemma parse_tiny: "parseFloat ''5e-324'' = Fin False (1 / 2 ^ 1074)"
proof -
  have "to_number False (5 / 10 ^ 324) = Fin False (1 / 2 ^ 1074)"
    by (simp only: to_number_def round_tiny option.case)
  then show ?thesis
    by (simp add: parseFloat_def is_ws_def is_digit_def digits_value_def exponent_part_def
        power_int_minus_divide)
qed

lemma mul_tiny_up: "js_mul (Fin False (1 / 2 ^ 1074)) (num_lit (103 / 100)) = Fin False (1 / 2 ^ 1074)"
proof -
  have "round_mag (1 / 2 ^ 1074 * (4638707616191611 / 2 ^ 52)) = Some (of_int 1 * 2 powi (- 1074))"
    by (rule round_mag_exact [where l = "- 1074"]) (simp_all add: power_int_minus_divide)
  then show ?thesis
    by (simp add: c103_value to_number_def power_int_minus_divide)
qed

lemma mul_tiny_down: "js_mul (Fin False (1 / 2 ^ 1074)) (num_lit (97 / 100)) = Fin False (1 / 2 ^ 1074)"
proof -
  have "round_mag (1 / 2 ^ 1074 * (4368491638549381 / 2 ^ 52)) = Some (of_int 1 * 2 powi (- 1074))"
    by (rule round_mag_exact [where l = "- 1075"]) (simp_all add: power_int_minus_divide)
  then show ?thesis
    by (simp add: c97_value to_number_def power_int_minus_divide)
qed

lemma lit_03: "num_lit (3 / 10) = Fin False (5404319552844595 / 2 ^ 54)"
proof -
  have "round_mag (3 / 10) = Some (of_int 5404319552844595 * 2 powi (- 54))"
    by (rule round_mag_exact [where l = "- 2"]) (simp_all add: power_int_minus_divide)
  then show ?thesis
    by (simp add: num_lit_def to_number_def power_int_minus_divide)
qed

lemma lit_02: "num_lit (2 / 10) = Fin False (3602879701896397 / 2 ^ 54)"
proof -
  have "round_mag (2 / 10) = Some (of_int 7205759403792794 * 2 powi (- 55))"
    by (rule round_mag_exact [where l = "- 3"]) (simp_all add: power_int_minus_divide)
  then show ?thesis
    by (simp add: num_lit_def to_number_def power_int_minus_divide)
qed

lemma lit_04: "num_lit (4 / 10) = Fin False (3602879701896397 / 2 ^ 53)"
proof -
  have "round_mag (4 / 10) = Some (of_int 7205759403792794 * 2 powi (- 54))"
    by (rule round_mag_exact [where l = "- 2"]) (simp_all add: power_int_minus_divide)
  then show ?thesis
    by (simp add: num_lit_def to_number_def power_int_minus_divide)
qed

lemma lit_0: "num_lit 0 = Fin False 0"
  by (simp add: num_lit_def to_number_def round_mag_def)

lemma mul_neg5_up:
  "js_mul (Fin True 5) (num_lit (103 / 100)) = Fin True (2899192260119757 / 2 ^ 49)"
proof -
  have "round_mag (5 * (4638707616191611 / 2 ^ 52)) = Some (of_int 5798384520239514 * 2 powi (- 50))"
    by (rule round_mag_exact [where l = 2]) (simp_all add: power_int_minus_divide)
  then show ?thesis
    by (simp add: c103_value to_number_def power_int_minus_divide)
qed

lemma parse_0: "parseFloat ''0'' = Fin False 0"
  by (simp add: parseFloat_def is_ws_def is_digit_def digits_value_def exponent_part_def
      to_number_def round_mag_def)

text \<open>
  The sixteen least positive Numbers are fixed by both products: three hundredths of
  them is less than half a unit in the last place.
\<close>

lemma mul_small_up:
  assumes "1 \<le> k" and "k \<le> 16"
  shows "js_mul (Fin False (of_int k / 2 ^ 1074)) (num_lit (103 / 100)) = Fin False (of_int k / 2 ^ 1074)"
proof -
  define x :: rat where "x = of_int k / 2 ^ 1074 * (4638707616191611 / 2 ^ 52)"
  have k: "(1::rat) \<le> of_int k" "(of_int k :: rat) \<le> 16"
    using assms by simp_all
  have x: "x * 2 ^ 1074 = of_int k * (4638707616191611 / 2 ^ 52)"
    by (simp add: x_def)
  have "round_mag x = Some (of_int k / 2 ^ 1074)"
  proof (rule round_mag_subnormal)
    show "0 < x"
      using k by (simp add: x_def)
    have "x \<le> 16 / 2 ^ 1074 * (4638707616191611 / 2 ^ 52)"
      unfolding x_def using k by (intro mult_right_mono divide_right_mono) simp_all
    also have "\<dots> < 2 powi (- 1022)"
      by (simp add: power_int_minus_divide)
    finally show "x < 2 powi (- 1022)" .
    show "of_int k - 1 / 2 < x * 2 ^ 1074"
      unfolding x using k by simp
    show "x * 2 ^ 1074 < of_int k + 1 / 2"
      unfolding x using k by simp
    show "k < 2 ^ 53"
      using assms by simp
  qed
  then show ?thesis
    by (simp add: c103_value to_number_def x_def)
qed

lemma mul_small_down:
  assumes "1 \<le> k" and "k \<le> 16"
  shows "js_mul (Fin False (of_int k / 2 ^ 1074)) (num_lit (97 / 100)) = Fin False (of_int k / 2 ^ 1074)"
proof -
  define x :: rat where "x = of_int k / 2 ^ 1074 * (4368491638549381 / 2 ^ 52)"
  have k: "(1::rat) \<le> of_int k" "(of_int k :: rat) \<le> 16"
    using assms by simp_all
  have x: "x * 2 ^ 1074 = of_int k * (4368491638549381 / 2 ^ 52)"
    by (simp add: x_def)
  have "round_mag x = Some (of_int k / 2 ^ 1074)"
  proof (rule round_mag_subnormal)
    show "0 < x"
      using k by (simp add: x_def)
    have "x \<le> 16 / 2 ^ 1074 * (4368491638549381 / 2 ^ 52)"
      unfolding x_def using k by (intro mult_right_mono divide_right_mono) simp_all
    also have "\<dots> < 2 powi (- 1022)"
      by (simp add: power_int_minus_divide)
    finally show "x < 2 powi (- 1022)" .
    show "of_int k - 1 / 2 < x * 2 ^ 1074"
      unfolding x using k by simp
    show "x * 2 ^ 1074 < of_int k + 1 / 2"
      unfolding x using k by simp
    show "k < 2 ^ 53"
      using assms by simp
  qed
  then show ?thesis
    by (simp add: c97_value to_number_def x_def)
qed

section \<open>Properties of the component\<close>

subsection \<open>The record built by a submission\<close>

lemma newGoods_currentPrice: "currentPrice (newGoods now r1 r2 r3 fd) = parseFloat (price fd)"
  by (simp add: newGoods_def)

lemma newGoods_up:
  "h \<in> {30, 50, 60} \<Longrightarrow>
   up (predictions (newGoods now r1 r2 r3 fd)) h =
     Some (js_mul (parseFloat (price fd)) (num_lit (103 / 100)))"
  by (auto simp: newGoods_def)

lemma newGoods_down:
  "h \<in> {30, 50, 60} \<Longrightarrow>
   down (predictions (newGoods now r1 r2 r3 fd)) h =
     Some (js_mul (parseFloat (price fd)) (num_lit (97 / 100)))"
  by (auto simp: newGoods_def)

lemma handleSubmit_rejected:
  assumes "someFieldEmpty (formData s)"
  shows "handleSubmit now r1 r2 r3 s = s\<lparr>error := ''Please fill in all fields'', loading := False\<rparr>"
  using assms by (simp add: handleSubmit_def)

lemma handleSubmit_accepted:
  assumes "\<not> someFieldEmpty (formData s)"
  shows "handleSubmit now r1 r2 r3 s =
    s\<lparr>goods := goods s @ [newGoods now r1 r2 r3 (formData s)], loading := False, error := '''',
      formData := emptyForm\<rparr>"
  using assms by (simp add: handleSubmit_def)

lemma exampleForm_filled: "\<not> someFieldEmpty (exampleForm (c # cs))"
  by (simp add: someFieldEmpty_def exampleForm_def)

lemma formData_filledState: "formData (filledState p) = exampleForm p"
  by (simp add: filledState_def)

lemma goods_filledState: "goods (filledState p) = []"
  by (simp add: filledState_def initialState_def)

subsection \<open>The catalog only grows\<close>

lemma goods_dispatch: "\<exists>new. goods (dispatch ev s) = goods s @ new"
proof (cases ev)
  case (FetchExchangeRate response)
  then show ?thesis
    by (simp add: fetchExchangeRate_def split: sum.splits)
next
  case (InputChange name v)
  then show ?thesis
    by (simp add: handleInputChange_def)
next
  case (Submit now r1 r2 r3)
  then show ?thesis
    by (cases "someFieldEmpty (formData s)")
      (simp_all add: handleSubmit_rejected handleSubmit_accepted)
qed

lemma goods_run: "\<exists>new. goods (run evs s) = goods s @ new"
proof (induction evs arbitrary: s)
  case Nil
  then show ?case by simp
next
  case (Cons ev evs)
  obtain new1 where "goods (dispatch ev s) = goods s @ new1"
    using goods_dispatch by blast
  moreover obtain new2 where "goods (run evs (dispatch ev s)) = goods (dispatch ev s) @ new2"
    using Cons.IH by blast
  ultimately show ?case by simp
qed

subsection \<open>Comparisons\<close>

lemma js_le_refl: "a \<noteq> NaN \<Longrightarrow> js_le a a"
  by (cases a) simp_all

lemma js_mul_103_not_NaN: "p \<noteq> NaN \<Longrightarrow> js_mul p (num_lit (103 / 100)) \<noteq> NaN"
  by (cases p) (simp_all add: c103_value to_number_def split: option.splits)

subsection \<open>Responses without a rate table\<close>

text \<open>
  Data that is a string has no property \<open>rates\<close>, so the \<open>try\<close> block stores
  \<open>undefined\<close>; reading \<open>rates\<close> of \<open>null\<close> throws, and the \<open>catch\<close> block stores the
  fallback table as it does for a rejected request.
\<close>

lemma axios_get_rejects:
  "(\<exists>failure. axios_get r = Inl failure) \<longleftrightarrow>
   r = NoResponse \<or> (\<exists>status b. r = Response status b \<and> (status < 200 \<or> 300 \<le> status))"
  by (cases r) (auto simp: axios_get_def)

lemma fetch_string_body:
  "exchangeRate (fetchExchangeRate (Inr (Str body)) s) = Undefined"
  by (simp add: fetchExchangeRate_def fetch_try_def)

lemma fetch_null_body:
  "exchangeRate (fetchExchangeRate (Inr Null) s) = fallbackRates"
  by (simp add: fetchExchangeRate_def fetch_try_def)

lemma fetch_rates:
  "exchangeRate (fetchExchangeRate (Inr (Obj [(''rates'', table)])) s) = table"
  by (simp add: fetchExchangeRate_def fetch_try_def)

section \<open>The statements of the specification\<close>

subsection \<open>Price projection\<close>

text \<open>
  C1. For every finite price of at least \<open>17 * 2 ^ -1074\<close> and every day offset, the
  projection of the up scenario is greater than the price, and the price is greater
  than the projection of the down scenario. (The up projection of a price close to the
  largest Number is \<open>Infinity\<close>, which is greater as well.)
\<close>

theorem projection_brackets_price:
  assumes "parseFloat (price fd) = Fin False p" and "17 / 2 ^ 1074 \<le> p"
  shows "\<forall>h \<in> {30, 50, 60}. \<exists>u d.
    up (predictions (newGoods now r1 r2 r3 fd)) h = Some u \<and>
    down (predictions (newGoods now r1 r2 r3 fd)) h = Some d \<and>
    js_gt u (currentPrice (newGoods now r1 r2 r3 fd)) \<and>
    js_gt (currentPrice (newGoods now r1 r2 r3 fd)) d"
proof
  fix h :: nat
  assume h: "h \<in> {30, 50, 60}"
  from assms(1) have "p < 2 ^ 1024"
    by (rule parseFloat_range)
  with assms(2) have "js_gt (Fin False p) (js_mul (Fin False p) (num_lit (97 / 100)))"
    by (rule js_mul_down)
  moreover from assms(2) have "js_gt (js_mul (Fin False p) (num_lit (103 / 100))) (Fin False p)"
    by (rule js_mul_up)
  ultimately show "\<exists>u d.
    up (predictions (newGoods now r1 r2 r3 fd)) h = Some u \<and>
    down (predictions (newGoods now r1 r2 r3 fd)) h = Some d \<and>
    js_gt u (currentPrice (newGoods now r1 r2 r3 fd)) \<and>
    js_gt (currentPrice (newGoods now r1 r2 r3 fd)) d"
    by (simp add: newGoods_up [OF h] newGoods_down [OF h] newGoods_currentPrice assms(1))
qed

theorem projection_brackets_price_witness:
  "parseFloat (price (exampleForm ''10'')) = Fin False 10 \<and> (17 / 2 ^ 1074 \<le> (10::rat)) \<and>
   (\<exists>u d.
      up (predictions (newGoods 0 (Fin False 0) (Fin False 0) (Fin False 0) (exampleForm ''10''))) 30 = Some u \<and>
      down (predictions (newGoods 0 (Fin False 0) (Fin False 0) (Fin False 0) (exampleForm ''10''))) 30 = Some d \<and>
      js_gt u (currentPrice (newGoods 0 (Fin False 0) (Fin False 0) (Fin False 0) (exampleForm ''10''))) \<and>
      js_gt (currentPrice (newGoods 0 (Fin False 0) (Fin False 0) (Fin False 0) (exampleForm ''10''))) d)"
proof -
  have a: "parseFloat (price (exampleForm ''10'')) = Fin False 10"
    by (simp add: exampleForm_def parse_10)
  have b: "17 / 2 ^ 1074 \<le> (10::rat)"
    by simp
  have c: "(30::nat) \<in> {30, 50, 60}"
    by simp
  from projection_brackets_price [OF a b, THEN bspec, OF c] a b show ?thesis
    by blast
qed

text \<open>
  The least positive Number, which \<open>parseFloat\<close> returns for \<open>5e-324\<close>, is a positive
  price for which both products round back to the price itself.
\<close>

theorem up_not_above_smallest_price:
  "currentPrice (newGoods 0 (Fin False 0) (Fin False 0) (Fin False 0) (exampleForm ''5e-324''))
     = Fin False (1 / 2 ^ 1074) \<and>
   js_gt (Fin False (1 / 2 ^ 1074)) (num_lit 0) \<and>
   up (predictions (newGoods 0 (Fin False 0) (Fin False 0) (Fin False 0) (exampleForm ''5e-324''))) 30
     = Some (Fin False (1 / 2 ^ 1074)) \<and>
   down (predictions (newGoods 0 (Fin False 0) (Fin False 0) (Fin False 0) (exampleForm ''5e-324''))) 30
     = Some (Fin False (1 / 2 ^ 1074)) \<and>
   \<not> js_gt (Fin False (1 / 2 ^ 1074)) (Fin False (1 / 2 ^ 1074))"
proof -
  have p: "parseFloat (price (exampleForm ''5e-324'')) = Fin False (1 / 2 ^ 1074)"
    by (simp add: exampleForm_def parse_tiny)
  have "js_gt (Fin False (1 / 2 ^ 1074)) (num_lit 0)"
    by (simp add: lit_0 js_gt_def signed_value_def)
  moreover have "\<not> js_gt (Fin False (1 / 2 ^ 1074)) (Fin False (1 / 2 ^ 1074))"
    by (simp add: js_gt_def)
  ultimately show ?thesis
    by (simp only: newGoods_currentPrice newGoods_up newGoods_down p mul_tiny_up mul_tiny_down
        insertI1 simp_thms)
qed

text \<open>
  C2. Within each scenario the three day offsets carry the same value: the price times
  \<open>1.03\<close> for up and the price times \<open>0.97\<close> for down.
\<close>

theorem horizons_share_value:
  "up (predictions (newGoods now r1 r2 r3 fd)) 30 = Some (js_mul (parseFloat (price fd)) (num_lit (103 / 100))) \<and>
   up (predictions (newGoods now r1 r2 r3 fd)) 50 = Some (js_mul (parseFloat (price fd)) (num_lit (103 / 100))) \<and>
   up (predictions (newGoods now r1 r2 r3 fd)) 60 = Some (js_mul (parseFloat (price fd)) (num_lit (103 / 100))) \<and>
   down (predictions (newGoods now r1 r2 r3 fd)) 30 = Some (js_mul (parseFloat (price fd)) (num_lit (97 / 100))) \<and>
   down (predictions (newGoods now r1 r2 r3 fd)) 50 = Some (js_mul (parseFloat (price fd)) (num_lit (97 / 100))) \<and>
   down (predictions (newGoods now r1 r2 r3 fd)) 60 = Some (js_mul (parseFloat (price fd)) (num_lit (97 / 100)))"
  by (simp add: newGoods_def)

text \<open>
  C3. For every price that is a Number other than \<open>NaN\<close>, the projections of the up
  scenario do not decrease with the day offset. (The price field is a number input, and
  a price that parses to \<open>NaN\<close> is not a number: every comparison with it is false.)
\<close>

theorem up_monotone_in_horizon:
  assumes "parseFloat (price fd) \<noteq> NaN"
  shows "\<forall>h1 \<in> {30, 50, 60}. \<forall>h2 \<in> {30, 50, 60}. h1 < h2 \<longrightarrow> (\<exists>u1 u2.
    up (predictions (newGoods now r1 r2 r3 fd)) h1 = Some u1 \<and>
    up (predictions (newGoods now r1 r2 r3 fd)) h2 = Some u2 \<and> js_le u1 u2)"
proof (intro ballI impI)
  fix h1 h2 :: nat
  assume h: "h1 \<in> {30, 50, 60}" "h2 \<in> {30, 50, 60}"
  from assms have "js_mul (parseFloat (price fd)) (num_lit (103 / 100)) \<noteq> NaN"
    by (rule js_mul_103_not_NaN)
  then have "js_le (js_mul (parseFloat (price fd)) (num_lit (103 / 100)))
      (js_mul (parseFloat (price fd)) (num_lit (103 / 100)))"
    by (rule js_le_refl)
  then show "\<exists>u1 u2.
    up (predictions (newGoods now r1 r2 r3 fd)) h1 = Some u1 \<and>
    up (predictions (newGoods now r1 r2 r3 fd)) h2 = Some u2 \<and> js_le u1 u2"
    by (simp add: newGoods_up [OF h(1)] newGoods_up [OF h(2)])
qed

theorem up_monotone_in_horizon_witness:
  "parseFloat (price (exampleForm ''10'')) \<noteq> NaN \<and> (30::nat) < 50 \<and>
   (\<exists>u1 u2.
      up (predictions (newGoods 0 (Fin False 0) (Fin False 0) (Fin False 0) (exampleForm ''10''))) 30 = Some u1 \<and>
      up (predictions (newGoods 0 (Fin False 0) (Fin False 0) (Fin False 0) (exampleForm ''10''))) 50 = Some u2 \<and>
      js_le u1 u2)"
proof -
  have a: "parseFloat (price (exampleForm ''10'')) \<noteq> NaN"
    by (simp add: exampleForm_def parse_10)
  have b: "(30::nat) \<in> {30, 50, 60}" and c: "(50::nat) \<in> {30, 50, 60}" and d: "(30::nat) < 50"
    by simp_all
  from up_monotone_in_horizon [OF a, THEN bspec, OF b, THEN bspec, OF c, THEN mp, OF d] a d
  show ?thesis
    by blast
qed

text \<open>
  C4. A price that is not positive is projected like any other: with seven non-empty
  fields the submission sets no error, and the record appended carries a prediction
  block with the price times \<open>1.03\<close> and times \<open>0.97\<close> at every day offset.
\<close>

theorem nonpositive_price_projected:
  assumes "\<not> someFieldEmpty (formData s)"
    and "js_le (parseFloat (price (formData s))) (num_lit 0)"
  shows "error (handleSubmit now r1 r2 r3 s) = '''' \<and>
    goods (handleSubmit now r1 r2 r3 s) = goods s @ [newGoods now r1 r2 r3 (formData s)] \<and>
    (\<forall>h \<in> {30, 50, 60}.
       up (predictions (newGoods now r1 r2 r3 (formData s))) h =
         Some (js_mul (parseFloat (price (formData s))) (num_lit (103 / 100))) \<and>
       down (predictions (newGoods now r1 r2 r3 (formData s))) h =
         Some (js_mul (parseFloat (price (formData s))) (num_lit (97 / 100))))"
  using assms(1) by (simp add: handleSubmit_accepted newGoods_up newGoods_down)

theorem nonpositive_price_projected_witness:
  "\<not> someFieldEmpty (formData (filledState ''-5'')) \<and>
   js_le (parseFloat (price (formData (filledState ''-5'')))) (num_lit 0) \<and>
   error (handleSubmit 0 (Fin False 0) (Fin False 0) (Fin False 0) (filledState ''-5'')) = '''' \<and>
   goods (handleSubmit 0 (Fin False 0) (Fin False 0) (Fin False 0) (filledState ''-5'')) =
     [newGoods 0 (Fin False 0) (Fin False 0) (Fin False 0) (exampleForm ''-5'')] \<and>
   up (predictions (newGoods 0 (Fin False 0) (Fin False 0) (Fin False 0) (exampleForm ''-5''))) 30 =
     Some (js_mul (Fin True 5) (num_lit (103 / 100))) \<and>
   down (predictions (newGoods 0 (Fin False 0) (Fin False 0) (Fin False 0) (exampleForm ''-5''))) 30 =
     Some (js_mul (Fin True 5) (num_lit (97 / 100)))"
proof -
  have a: "\<not> someFieldEmpty (formData (filledState ''-5''))"
    by (simp add: formData_filledState exampleForm_filled)
  have p: "parseFloat (price (exampleForm ''-5'')) = Fin True 5"
    by (simp add: exampleForm_def parse_neg5)
  have b: "js_le (parseFloat (price (formData (filledState ''-5'')))) (num_lit 0)"
    by (simp add: formData_filledState p lit_0 signed_value_def)
  from nonpositive_price_projected [OF a b, of 0 "Fin False 0" "Fin False 0" "Fin False 0"] a b
  show ?thesis
    by (simp add: formData_filledState goods_filledState p)
qed

text \<open>
  The price \<open>-5\<close> is accepted: no error is set, and the one record of the catalog
  projects \<open>-5.15\<close> for the up scenario.
\<close>

theorem negative_price_not_rejected:
  "js_le (parseFloat (price (formData (filledState ''-5'')))) (num_lit 0) \<and>
   error (handleSubmit 0 (Fin False 0) (Fin False 0) (Fin False 0) (filledState ''-5'')) = '''' \<and>
   length (goods (handleSubmit 0 (Fin False 0) (Fin False 0) (Fin False 0) (filledState ''-5''))) = 1 \<and>
   up (predictions (last (goods
     (handleSubmit 0 (Fin False 0) (Fin False 0) (Fin False 0) (filledState ''-5''))))) 30 =
     Some (Fin True (2899192260119757 / 2 ^ 49))"
proof -
  have a: "\<not> someFieldEmpty (formData (filledState ''-5''))"
    by (simp add: formData_filledState exampleForm_filled)
  have p: "parseFloat (price (formData (filledState ''-5''))) = Fin True 5"
    by (simp add: formData_filledState exampleForm_def parse_neg5)
  have "js_le (Fin True 5) (num_lit 0)"
    by (simp add: lit_0 signed_value_def)
  then show ?thesis
    by (simp add: handleSubmit_accepted [OF a] goods_filledState newGoods_up p mul_neg5_up)
qed

subsection \<open>The catalog\<close>

text \<open>
  C5. A submission with seven non-empty fields appends exactly one record at the end of
  the catalog: the stored records keep their values and positions, the new record's
  \<open>currentPrice\<close> is the parsed price, and whatever handlers run afterwards, the catalog
  of that moment stays a prefix of the catalog.
\<close>

theorem add_appends_one:
  assumes "goodsId (formData s) \<noteq> []" and "goodsName (formData s) \<noteq> []"
    and "cost (formData s) \<noteq> []" and "price (formData s) \<noteq> []" and "date (formData s) \<noteq> []"
    and "supplierId (formData s) \<noteq> []" and "supplierName (formData s) \<noteq> []"
  shows "length (goods (handleSubmit now r1 r2 r3 s)) = length (goods s) + 1 \<and>
    take (length (goods s)) (goods (handleSubmit now r1 r2 r3 s)) = goods s \<and>
    (\<forall>i < length (goods s). goods (handleSubmit now r1 r2 r3 s) ! i = goods s ! i) \<and>
    currentPrice (last (goods (handleSubmit now r1 r2 r3 s))) = parseFloat (price (formData s)) \<and>
    (\<forall>evs. take (length (goods (handleSubmit now r1 r2 r3 s)))
       (goods (run evs (handleSubmit now r1 r2 r3 s))) = goods (handleSubmit now r1 r2 r3 s))"
proof -
  from assms have ok: "\<not> someFieldEmpty (formData s)"
    by (simp add: someFieldEmpty_def)
  define s' where "s' = handleSubmit now r1 r2 r3 s"
  have g: "goods s' = goods s @ [newGoods now r1 r2 r3 (formData s)]"
    by (simp add: s'_def handleSubmit_accepted [OF ok])
  have later: "take (length (goods s')) (goods (run evs s')) = goods s'" for evs
    using goods_run [of evs s'] by auto
  have "length (goods s') = length (goods s) + 1"
    by (simp add: g)
  moreover have "take (length (goods s)) (goods s') = goods s"
    by (simp add: g)
  moreover have "\<forall>i < length (goods s). goods s' ! i = goods s ! i"
    by (simp add: g nth_append)
  moreover have "currentPrice (last (goods s')) = parseFloat (price (formData s))"
    by (simp add: g newGoods_currentPrice)
  ultimately show ?thesis
    using later unfolding s'_def by blast
qed

theorem add_appends_one_witness:
  "goodsId (formData (filledState ''10'')) \<noteq> [] \<and> goodsName (formData (filledState ''10'')) \<noteq> [] \<and>
   cost (formData (filledState ''10'')) \<noteq> [] \<and> price (formData (filledState ''10'')) \<noteq> [] \<and>
   date (formData (filledState ''10'')) \<noteq> [] \<and> supplierId (formData (filledState ''10'')) \<noteq> [] \<and>
   supplierName (formData (filledState ''10'')) \<noteq> [] \<and>
   length (goods (handleSubmit 0 (Fin False 0) (Fin False 0) (Fin False 0) (filledState ''10''))) = 1 \<and>
   currentPrice (last (goods (handleSubmit 0 (Fin False 0) (Fin False 0) (Fin False 0) (filledState ''10''))))
     = Fin False 10"
  using add_appends_one [of "filledState ''10''" 0 "Fin False 0" "Fin False 0" "Fin False 0"]
  by (simp add: formData_filledState goods_filledState exampleForm_def parse_10)

text \<open>
  C6. A submission in which one of the seven fields is empty is rejected with the one
  message shown to the user; the catalog is as before and the loading flag is cleared.
\<close>

theorem empty_field_rejected:
  assumes "goodsId (formData s) = [] \<or> goodsName (formData s) = [] \<or> cost (formData s) = [] \<or>
    price (formData s) = [] \<or> date (formData s) = [] \<or> supplierId (formData s) = [] \<or>
    supplierName (formData s) = []"
  shows "error (handleSubmit now r1 r2 r3 s) = ''Please fill in all fields'' \<and>
    goods (handleSubmit now r1 r2 r3 s) = goods s \<and>
    length (goods (handleSubmit now r1 r2 r3 s)) = length (goods s) \<and>
    loading (handleSubmit now r1 r2 r3 s) = False"
proof -
  from assms have "someFieldEmpty (formData s)"
    by (simp only: someFieldEmpty_def)
  then show ?thesis
    by (simp add: handleSubmit_rejected)
qed

theorem empty_field_rejected_witness:
  "supplierName (formData (handleInputChange SupplierName [] (filledState ''10''))) = [] \<and>
   error (handleSubmit 0 (Fin False 0) (Fin False 0) (Fin False 0)
     (handleInputChange SupplierName [] (filledState ''10''))) = ''Please fill in all fields'' \<and>
   goods (handleSubmit 0 (Fin False 0) (Fin False 0) (Fin False 0)
     (handleInputChange SupplierName [] (filledState ''10''))) = [] \<and>
   loading (handleSubmit 0 (Fin False 0) (Fin False 0) (Fin False 0)
     (handleInputChange SupplierName [] (filledState ''10''))) = False"
proof -
  have a: "supplierName (formData (handleInputChange SupplierName [] (filledState ''10''))) = []"
    by (simp add: handleInputChange_def)
  have "goods (handleInputChange SupplierName [] (filledState ''10'')) = []"
    by (simp add: handleInputChange_def goods_filledState)
  with a empty_field_rejected
    [of "handleInputChange SupplierName [] (filledState ''10'')" 0 "Fin False 0" "Fin False 0" "Fin False 0"]
  show ?thesis
    by simp
qed

text \<open>
  C7. The validation looks at presence only. When a field is empty the submission is
  rejected with the one fixed message and nothing is appended; when the seven fields are
  non-empty a record is appended and no error is set, whatever cost and price parse to.
\<close>

theorem validation_checks_presence_only:
  "(someFieldEmpty (formData s) \<longrightarrow>
      error (handleSubmit now r1 r2 r3 s) = ''Please fill in all fields'' \<and>
      goods (handleSubmit now r1 r2 r3 s) = goods s) \<and>
   (\<not> someFieldEmpty (formData s) \<longrightarrow>
      error (handleSubmit now r1 r2 r3 s) = '''' \<and>
      goods (handleSubmit now r1 r2 r3 s) = goods s @ [newGoods now r1 r2 r3 (formData s)])"
  by (simp add: handleSubmit_rejected handleSubmit_accepted)

theorem validation_checks_presence_only_witness:
  "someFieldEmpty (formData initialState) \<and>
   error (handleSubmit 0 (Fin False 0) (Fin False 0) (Fin False 0) initialState)
     = ''Please fill in all fields'' \<and>
   goods (handleSubmit 0 (Fin False 0) (Fin False 0) (Fin False 0) initialState) = [] \<and>
   \<not> someFieldEmpty (formData (filledState ''0'')) \<and>
   error (handleSubmit 0 (Fin False 0) (Fin False 0) (Fin False 0) (filledState ''0'')) = '''' \<and>
   goods (handleSubmit 0 (Fin False 0) (Fin False 0) (Fin False 0) (filledState ''0'')) =
     [newGoods 0 (Fin False 0) (Fin False 0) (Fin False 0) (exampleForm ''0'')]"
proof -
  have a: "someFieldEmpty (formData initialState)"
    by (simp add: initialState_def emptyForm_def someFieldEmpty_def)
  have b: "\<not> someFieldEmpty (formData (filledState ''0''))"
    by (simp add: formData_filledState exampleForm_filled)
  have c: "goods initialState = []"
    by (simp add: initialState_def)
  from a b c
    validation_checks_presence_only [of initialState 0 "Fin False 0" "Fin False 0" "Fin False 0"]
    validation_checks_presence_only [of "filledState ''0''" 0 "Fin False 0" "Fin False 0" "Fin False 0"]
  show ?thesis
    by (simp add: goods_filledState formData_filledState)
qed

text \<open>
  The price \<open>0\<close> is not a positive decimal, and the submission is appended all the same.
\<close>

theorem zero_price_appended:
  "\<not> js_gt (parseFloat (price (formData (filledState ''0'')))) (num_lit 0) \<and>
   length (goods (handleSubmit 0 (Fin False 0) (Fin False 0) (Fin False 0) (filledState ''0''))) = 1 \<and>
   error (handleSubmit 0 (Fin False 0) (Fin False 0) (Fin False 0) (filledState ''0'')) = ''''"
proof -
  have a: "\<not> someFieldEmpty (formData (filledState ''0''))"
    by (simp add: formData_filledState exampleForm_filled)
  have "\<not> js_gt (parseFloat (price (formData (filledState ''0'')))) (num_lit 0)"
    by (simp add: formData_filledState exampleForm_def parse_0 lit_0 js_gt_def)
  then show ?thesis
    by (simp add: handleSubmit_accepted [OF a] goods_filledState)
qed

subsection \<open>Exchange rates\<close>

text \<open>
  C8. Whenever the awaited request throws, for want of a response or for a status
  outside \<open>200..299\<close>, the rate table becomes the fixed fallback table, and the error
  shown to the user, the catalog, the loading flag and the form stay as they were; the
  failure goes to the console only.
\<close>

theorem failed_request_gives_fallback:
  assumes "r = NoResponse \<or> r = Response status b \<and> (status < 200 \<or> 300 \<le> status)"
  shows "exchangeRate (fetchExchangeRate (axios_get r) s) =
     Obj [(''USD'', Num (num_lit 1)), (''EUR'', Num (num_lit (85 / 100))),
          (''GBP'', Num (num_lit (73 / 100))), (''NGN'', Num (num_lit 460))] \<and>
   error (fetchExchangeRate (axios_get r) s) = error s \<and>
   goods (fetchExchangeRate (axios_get r) s) = goods s \<and>
   loading (fetchExchangeRate (axios_get r) s) = loading s \<and>
   formData (fetchExchangeRate (axios_get r) s) = formData s"
proof -
  from assms obtain failure where "axios_get r = Inl failure"
    by (auto simp: axios_get_def)
  then show ?thesis
    by (simp add: fetchExchangeRate_def fetch_try_def fallbackRates_def)
qed

theorem failed_request_gives_fallback_witness:
  "((500::nat) < 200 \<or> 300 \<le> (500::nat)) \<and>
   exchangeRate (fetchExchangeRate (axios_get (Response 500 (Unparseable ''Internal Server Error'')))
       initialState) =
     Obj [(''USD'', Num (num_lit 1)), (''EUR'', Num (num_lit (85 / 100))),
          (''GBP'', Num (num_lit (73 / 100))), (''NGN'', Num (num_lit 460))] \<and>
   error (fetchExchangeRate (axios_get (Response 500 (Unparseable ''Internal Server Error'')))
       initialState) = '''' \<and>
   exchangeRate (fetchExchangeRate (axios_get NoResponse) initialState) =
     Obj [(''USD'', Num (num_lit 1)), (''EUR'', Num (num_lit (85 / 100))),
          (''GBP'', Num (num_lit (73 / 100))), (''NGN'', Num (num_lit 460))] \<and>
   error (fetchExchangeRate (axios_get NoResponse) initialState) = ''''"
proof -
  have a: "(500::nat) < 200 \<or> 300 \<le> (500::nat)"
    by simp
  have e: "error initialState = ''''"
    by (simp add: initialState_def)
  from a e
    failed_request_gives_fallback
      [of "Response 500 (Unparseable ''Internal Server Error'')" 500
        "Unparseable ''Internal Server Error''" initialState]
    failed_request_gives_fallback [of NoResponse 0 "Json Null" initialState]
  show ?thesis
    by simp
qed

text \<open>
  A response with status \<open>200\<close> whose body cannot be parsed is no such failure: nothing
  is thrown, the \<open>try\<close> block reads \<open>rates\<close> of a string, and the rate table becomes
  \<open>undefined\<close>, not the fallback table.
\<close>

theorem unparseable_body_gives_undefined:
  "exchangeRate (fetchExchangeRate (axios_get (Response 200 (Unparseable ''<html>''))) initialState)
     = Undefined \<and>
   Undefined \<noteq> Obj [(''USD'', Num (num_lit 1)), (''EUR'', Num (num_lit (85 / 100))),
          (''GBP'', Num (num_lit (73 / 100))), (''NGN'', Num (num_lit 460))] \<and>
   error (fetchExchangeRate (axios_get (Response 200 (Unparseable ''<html>''))) initialState) = '''' \<and>
   console (fetchExchangeRate (axios_get (Response 200 (Unparseable ''<html>''))) initialState) = []"
  by (simp add: axios_get_def fetchExchangeRate_def fetch_try_def initialState_def)

subsection \<open>Supplier performance\<close>

text \<open>
  C9. The supplier performance of a new record is a function of the three random draws
  alone: for fixed draws it is the same for any two form contents and times, each label
  is one of its two values, and the draws \<open>0\<close> and \<open>0.5\<close> give different labels.
\<close>

theorem supplier_labels_from_draws_only:
  "supplierPerformance (newGoods now r1 r2 r3 fd) = supplierPerformance (newGoods now' r1 r2 r3 fd') \<and>
   onTimeDelivery (supplierPerformance (newGoods now r1 r2 r3 fd)) \<in> {''Good'', ''Poor''} \<and>
   qualityScore (supplierPerformance (newGoods now r1 r2 r3 fd)) \<in> {''High'', ''Low''} \<and>
   riskLevel (supplierPerformance (newGoods now r1 r2 r3 fd)) \<in> {''Low'', ''High''} \<and>
   supplierPerformance (newGoods now (Fin False 0) (Fin False 0) (Fin False 0) fd) =
     \<lparr>onTimeDelivery = ''Poor'', qualityScore = ''Low'', riskLevel = ''High''\<rparr> \<and>
   supplierPerformance (newGoods now (Fin False (1 / 2)) (Fin False (1 / 2)) (Fin False (1 / 2)) fd) =
     \<lparr>onTimeDelivery = ''Good'', qualityScore = ''High'', riskLevel = ''Low''\<rparr>"
  unfolding newGoods_def lit_03 lit_02 lit_04
  by (simp add: js_gt_def signed_value_def)

subsection \<open>The form after a submission\<close>

text \<open>
  C10. After a submission with seven non-empty fields every form field is the empty
  string. After a rejected submission the form holds the submitted values, and the state
  differs from the one before in the error message and the loading flag only.
\<close>

theorem form_reset_or_kept:
  "(\<not> someFieldEmpty (formData s) \<longrightarrow>
      formData (handleSubmit now r1 r2 r3 s) =
        \<lparr>goodsId = '''', goodsName = '''', cost = '''', price = '''', date = '''',
         supplierId = '''', supplierName = ''''\<rparr>) \<and>
   (someFieldEmpty (formData s) \<longrightarrow>
      formData (handleSubmit now r1 r2 r3 s) = formData s \<and>
      handleSubmit now r1 r2 r3 s = s\<lparr>error := ''Please fill in all fields'', loading := False\<rparr>)"
  by (simp add: handleSubmit_rejected handleSubmit_accepted emptyForm_def)

theorem form_reset_or_kept_witness:
  "\<not> someFieldEmpty (formData (filledState ''10'')) \<and>
   formData (handleSubmit 0 (Fin False 0) (Fin False 0) (Fin False 0) (filledState ''10'')) =
     \<lparr>goodsId = '''', goodsName = '''', cost = '''', price = '''', date = '''',
      supplierId = '''', supplierName = ''''\<rparr> \<and>
   someFieldEmpty (formData (handleInputChange Cost [] (filledState ''10''))) \<and>
   formData (handleSubmit 0 (Fin False 0) (Fin False 0) (Fin False 0)
       (handleInputChange Cost [] (filledState ''10''))) =
     \<lparr>goodsId = ''G1'', goodsName = ''Widget'', cost = '''', price = ''10'',
      date = ''2024-01-01'', supplierId = ''S1'', supplierName = ''Acme''\<rparr>"
proof -
  have a: "\<not> someFieldEmpty (formData (filledState ''10''))"
    by (simp add: formData_filledState exampleForm_filled)
  have b: "someFieldEmpty (formData (handleInputChange Cost [] (filledState ''10'')))"
    by (simp add: handleInputChange_def someFieldEmpty_def)
  have c: "formData (handleInputChange Cost [] (filledState ''10'')) =
      \<lparr>goodsId = ''G1'', goodsName = ''Widget'', cost = '''', price = ''10'',
       date = ''2024-01-01'', supplierId = ''S1'', supplierName = ''Acme''\<rparr>"
    by (simp add: handleInputChange_def formData_filledState exampleForm_def)
  from a b
    form_reset_or_kept [of "filledState ''10''" 0 "Fin False 0" "Fin False 0" "Fin False 0"]
    form_reset_or_kept [of "handleInputChange Cost [] (filledState ''10'')" 0 "Fin False 0"
      "Fin False 0" "Fin False 0"]
  show ?thesis
    by (simp add: c)
qed

end
